theory Spec2Isabelle
  imports Main
begin

section \<open>Exceptions\<close>

text \<open>
  The exceptions of \<^verbatim>\<open>annotate_labels.py\<close> as values. \<open>ValueError\<close> carries its message
  (the source builds it with \<^verbatim>\<open>%s\<close>), \<open>HttpError\<close> the \<^verbatim>\<open>status\<close> attribute the
  source reads. \<open>IOError\<close> and \<open>OSError\<close> are the two classes named by
  \<^verbatim>\<open>except (IOError, OSError)\<close>, an exception of a subclass counting as one of them;
  \<open>OtherError\<close> is any exception of another class. The decoders are taken not to raise
  the registry client's \<open>HttpError\<close>.
\<close>

datatype error =
    ValueError string
  | IndexError
  | NameError string
  | AttributeError string
  | HttpError nat
  | IOError string
  | OSError string
  | OtherError string

fun is_IOError_or_OSError :: "error \<Rightarrow> bool" where
  "is_IOError_or_OSError (IOError m) = True"
| "is_IOError_or_OSError (OSError m) = True"
| "is_IOError_or_OSError e = False"

section \<open>Registry data\<close>

text \<open>
  The JSON objects the registry returns, with the keys the source subscripts. A key the
  source reads without a guard is a plain field (the responses are taken well formed
  there); a key whose absence the source handles is an \<open>option\<close>:
  \<^item> \<^verbatim>\<open>'name' not in annotation['annotation']\<close> is \<open>a_name = None\<close>;
  \<^item> \<^verbatim>\<open>overlay_item['largeImage']['fileId']\<close> under \<^verbatim>\<open>except KeyError\<close> is
    \<open>largeImage :: string option option\<close>: the outer \<open>None\<close> is a missing
    \<^verbatim>\<open>'largeImage'\<close>, the inner one a missing \<^verbatim>\<open>'fileId'\<close>.
  A JSON number is loaded as a Python \<^verbatim>\<open>int\<close> or \<^verbatim>\<open>float\<close>, and the source passes it on as
  it is: \<open>PyInt\<close> is an unbounded integer, \<open>PyFloat\<close> a float, given by the 64 bits of
  its encoding. \<open>e_center\<close> and the members of \<open>e_points\<close> are lists of numbers, as the
  source slices them. A colour is the JSON value the colour map gives for a label: a
  string, an integer or an array (a Python list).
\<close>

datatype pyfloat = Float64 nat

datatype number = PyInt int | PyFloat pyfloat

datatype color = ColorName string | ColorValue int | ColorList "int list"

type_synonym colormap = "string \<Rightarrow> color option"

record element =
  e_type :: string
  e_center :: "number list"
  e_width :: number
  e_height :: number
  e_points :: "number list list"

record annotation =
  a_id :: string
  a_name :: "string option"
  a_elements :: "element list"

record overlay =
  itemId :: string
  overlayItemId :: string

record file_desc =
  f_id :: string
  f_name :: string
  mimeType :: string

record item =
  largeImage :: "string option option"

section \<open>Collaborators\<close>

text \<open>
  A temporary file is named by the number of its creation and its suffix
  (\<^verbatim>\<open>tempfile.NamedTemporaryFile(suffix=extension)\<close>).
\<close>

datatype tmp_path = TmpPath nat string

text \<open>
  The registry client, one field per request the source makes:
  \<^item> \<open>get_overlay i\<close>: \<^verbatim>\<open>get('overlay/%s' % i)\<close>;
  \<^item> \<open>get_overlays i\<close>: \<^verbatim>\<open>get('overlay', parameters={'itemId': i})\<close>;
  \<^item> \<open>get_item_files i n\<close>: \<^verbatim>\<open>get('item/%s/files' % i, parameters={'limit': n})\<close>;
  \<^item> \<open>getItem i\<close>: \<^verbatim>\<open>getItem(i)\<close>;
  \<^item> \<open>get_annotation_item i\<close>: \<^verbatim>\<open>get('annotation/item/%s' % i)\<close>;
  \<^item> \<open>get_annotations i n\<close>: \<^verbatim>\<open>get('annotation', parameters={'itemId': i, 'limit': n})\<close>;
  \<^item> \<open>get_annotation i\<close>: \<^verbatim>\<open>get('annotation/%s' % i)\<close>;
  \<^item> \<open>downloadFile i p\<close>: \<^verbatim>\<open>downloadFile(i, p)\<close>, \<open>None\<close> when it returns.
  A request that raises returns \<open>Inl\<close> of the exception.
\<close>

record client =
  get_overlay :: "string \<Rightarrow> error + overlay"
  get_overlays :: "string \<Rightarrow> error + overlay list"
  get_item_files :: "string \<Rightarrow> nat \<Rightarrow> error + file_desc list"
  getItem :: "string \<Rightarrow> error + item"
  get_annotation_item :: "string \<Rightarrow> error + annotation list"
  get_annotations :: "string \<Rightarrow> nat \<Rightarrow> error + annotation list"
  get_annotation :: "string \<Rightarrow> error + annotation"
  downloadFile :: "string \<Rightarrow> tmp_path \<Rightarrow> error option"

text \<open>The requests as the registry sees them: the path and the parameters of each call.\<close>

datatype param = PStr string | PInt int

datatype request =
    Get string "(string \<times> param) list"
  | GetItem string
  | DownloadFile string tmp_path

text \<open>
  An image in memory: its size and the colour of each of its pixels, as the value a
  drawing call was given for it (or the decoder produced). \<open>img_pixels\<close> is read only at
  pixels inside the image.
\<close>

record image =
  img_width :: int
  img_height :: int
  img_pixels :: "int \<times> int \<Rightarrow> color"

text \<open>
  The library and runtime functions the module calls:
  \<^item> \<open>json_load f\<close>: \<^verbatim>\<open>with open(f) as fh: json.load(fh)\<close>;
  \<^item> \<open>splitext n\<close>: \<^verbatim>\<open>os.path.splitext(n)\<close>;
  \<^item> \<open>Image_open p\<close>: \<^verbatim>\<open>Image.open(p)\<close>;
  \<^item> \<open>pytiff_open p\<close>: the body of the inner \<^verbatim>\<open>try\<close>, that is \<^verbatim>\<open>import numpy\<close>,
    \<^verbatim>\<open>import pytiff\<close>, \<^verbatim>\<open>pytiff.Tiff(p)\<close>, \<^verbatim>\<open>Image.fromarray(numpy.array(...))\<close>;
  \<^item> \<open>Image_save img f\<close>: \<^verbatim>\<open>img.save(f)\<close>, \<open>None\<close> when it returns;
  \<^item> \<open>ImageDraw_Draw img\<close>: \<^verbatim>\<open>ImageDraw.Draw(img)\<close>, \<open>None\<close> when it returns;
  \<^item> \<open>ImageDraw_point xy fill img\<close>: \<^verbatim>\<open>draw.point(xy, fill=fill)\<close> on the drawing object
    of \<open>img\<close>; it returns the image as the call leaves it, or the exception it raises;
  \<^item> \<open>ImageDraw_rectangle xy outline fill img\<close>:
    \<^verbatim>\<open>draw.rectangle(xy, outline=outline, fill=fill)\<close>, likewise;
  \<^item> \<open>ImageDraw_polygon xy outline fill img\<close>:
    \<^verbatim>\<open>draw.polygon(xy, outline=outline, fill=fill)\<close>, likewise;
  \<^item> \<open>float_add a b\<close>: the sum of two floats, and \<open>float_of_int n\<close>: the float of an
    integer, or the OverflowError the conversion raises.
  \<open>xy\<close> is the list of coordinate tuples, each tuple the list of its numbers.
\<close>

record libs =
  json_load :: "string \<Rightarrow> error + colormap"
  splitext :: "string \<Rightarrow> string \<times> string"
  Image_open :: "tmp_path \<Rightarrow> error + image"
  pytiff_open :: "tmp_path \<Rightarrow> error + image"
  Image_save :: "image \<Rightarrow> string \<Rightarrow> error option"
  ImageDraw_Draw :: "image \<Rightarrow> error option"
  ImageDraw_point :: "number list list \<Rightarrow> color \<Rightarrow> image \<Rightarrow> error + image"
  ImageDraw_rectangle :: "number list list \<Rightarrow> color \<Rightarrow> color \<Rightarrow> image \<Rightarrow> error + image"
  ImageDraw_polygon :: "number list list \<Rightarrow> color \<Rightarrow> color \<Rightarrow> image \<Rightarrow> error + image"
  float_add :: "pyfloat \<Rightarrow> pyfloat \<Rightarrow> pyfloat"
  float_of_int :: "int \<Rightarrow> error + pyfloat"

section \<open>The annotator\<close>

text \<open>
  The state of a run. A field \<open>u_x\<close> is the attribute \<^verbatim>\<open>self._x\<close>; \<open>self_client\<close> is
  \<^verbatim>\<open>self.client\<close>. \<open>u_gider_id\<close> is the attribute \<^verbatim>\<open>self._gider_id\<close> the setter of
  \<^verbatim>\<open>girder_id\<close> assigns (\<open>None\<close> while the object has no such attribute). \<open>g_client\<close> is
  the module-level name \<^verbatim>\<open>client\<close>, which \<^verbatim>\<open>_update_annotations\<close> reads: bound by the
  script's main block, unbound when the module is imported. The last four fields are the
  effects on the collaborators: the requests made, the temporary files created and not
  yet closed, the number of temporary files created, and the images written.
\<close>

record state =
  self_client :: client
  u_colormap :: "colormap option"
  u_girder_id :: "string option"
  u_gider_id :: "string option option"
  u_is_overlay_id :: bool
  u_item_id :: "string option"
  u_overlay_item_id :: "string option"
  u_overlay_file :: "file_desc option"
  u_annotations :: "annotation list option"
  g_client :: "client option"
  calls :: "request list"
  open_temps :: "tmp_path list"
  temps_created :: nat
  written :: "(string \<times> image) list"

definition LabelAnnotator :: "client \<Rightarrow> client option \<Rightarrow> state" where
  "LabelAnnotator c g =
     \<lparr> self_client = c, u_colormap = None, u_girder_id = None, u_gider_id = None,
       u_is_overlay_id = False, u_item_id = None, u_overlay_item_id = None,
       u_overlay_file = None, u_annotations = None, g_client = g,
       calls = [], open_temps = [], temps_created = 0, written = [] \<rparr>"

definition request_made :: "request \<Rightarrow> state \<Rightarrow> state" where
  "request_made r s = s\<lparr>calls := calls s @ [r]\<rparr>"

subsection \<open>Properties\<close>

definition colormap :: "state \<Rightarrow> colormap option" where
  "colormap s = u_colormap s"

definition colormap_setter :: "libs \<Rightarrow> string option \<Rightarrow> state \<Rightarrow> error option \<times> state" where
  "colormap_setter L colormap_filename s =
     (if colormap_filename = None \<or> colormap_filename = Some []
      then (None, s\<lparr>u_colormap := None\<rparr>)
      else (case json_load L (the colormap_filename) of
              Inl e \<Rightarrow> (Some e, s)
            | Inr m \<Rightarrow> (None, s\<lparr>u_colormap := Some m\<rparr>)))"

definition girder_id :: "state \<Rightarrow> string option" where
  "girder_id s = u_girder_id s"

definition is_overlay_id_setter :: "bool \<Rightarrow> state \<Rightarrow> state" where
  "is_overlay_id_setter b s = s\<lparr>u_is_overlay_id := b\<rparr>"

subsection \<open>Locating the overlay file\<close>

definition startswith :: "string \<Rightarrow> string \<Rightarrow> bool" where
  "startswith s p = (take (length p) s = p)"

text \<open>
  The block under the first \<^verbatim>\<open>if len(overlay_files) > 1\<close>: the item is requested and
  the file it names as its large image is taken out of the candidates.
\<close>

definition exclude_large_image ::
  "string \<Rightarrow> file_desc list \<Rightarrow> state \<Rightarrow> (error + file_desc list) \<times> state" where
  "exclude_large_image oid overlay_files s =
     (if length overlay_files > 1 then
        (let s1 = request_made (GetItem oid) s in
         case getItem (self_client s) oid of
           Inl e \<Rightarrow> (Inl e, s1)
         | Inr overlay_item \<Rightarrow>
             (let file_id = (case largeImage overlay_item of None \<Rightarrow> None | Some fid \<Rightarrow> fid)
              in (Inr (filter (\<lambda>f. Some (f_id f) \<noteq> file_id) overlay_files), s1)))
      else (Inr overlay_files, s))"

definition update_overlay_file :: "state \<Rightarrow> error option \<times> state" where
  "update_overlay_file s =
     (case u_overlay_item_id s of
        None \<Rightarrow> (None, s\<lparr>u_overlay_file := None\<rparr>)
      | Some oid \<Rightarrow>
          (let s1 = request_made (Get (''item/'' @ oid @ ''/files'') [(''limit'', PInt 2)]) s in
           case get_item_files (self_client s) oid 2 of
             Inl e \<Rightarrow> (Some e, s1)
           | Inr files \<Rightarrow>
               if files = [] then (Some (ValueError (''no files for overlay '' @ oid)), s1)
               else
                 (case exclude_large_image oid
                         (filter (\<lambda>f. startswith (mimeType f) ''image'') files) s1 of
                    (Inl e, s2) \<Rightarrow> (Some e, s2)
                  | (Inr overlay_files, s2) \<Rightarrow>
                      if length overlay_files > 1
                      then (Some (ValueError (''multiple files for overlay '' @ oid)), s2)
                      else (case overlay_files of
                              [] \<Rightarrow> (Some IndexError, s2)
                            | f # rest \<Rightarrow> (None, s2\<lparr>u_overlay_file := Some f\<rparr>)))))"

subsection \<open>Fetching the annotations\<close>

text \<open>
  The loop of the fallback: \<open>acc\<close> is \<^verbatim>\<open>self._annotations\<close>, assigned \<^verbatim>\<open>[]\<close> before the
  loop and appended to after each request; a request that raises leaves it as it is.
\<close>

fun fetch_each :: "client \<Rightarrow> annotation list \<Rightarrow> state \<Rightarrow> error option \<times> state" where
  "fetch_each c [] s = (None, s)"
| "fetch_each c (a # rest) s =
     (let s1 = request_made (Get (''annotation/'' @ a_id a) []) s in
      case get_annotation c (a_id a) of
        Inl e \<Rightarrow> (Some e, s1)
      | Inr full \<Rightarrow>
          fetch_each c rest (s1\<lparr>u_annotations := Some (the (u_annotations s1) @ [full])\<rparr>))"

definition update_annotations :: "state \<Rightarrow> error option \<times> state" where
  "update_annotations s =
     (case u_item_id s of
        None \<Rightarrow> (None, s\<lparr>u_annotations := None\<rparr>)
      | Some item_id \<Rightarrow>
          (case g_client s of
             None \<Rightarrow> (Some (NameError ''client''), s)
           | Some c \<Rightarrow>
               (let s1 = request_made (Get (''annotation/item/'' @ item_id) []) s in
                case get_annotation_item c item_id of
                  Inr anns \<Rightarrow> (None, s1\<lparr>u_annotations := Some anns\<rparr>)
                | Inl (HttpError status) \<Rightarrow>
                    if status = 400 then
                      (let s2 = request_made
                                  (Get ''annotation'' [(''itemId'', PStr item_id), (''limit'', PInt 0)]) s1
                       in case get_annotations c item_id 0 of
                            Inl e \<Rightarrow> (Some e, s2)
                          | Inr annotations \<Rightarrow>
                              fetch_each c annotations (s2\<lparr>u_annotations := Some []\<rparr>))
                    else (Some (HttpError status), s1)
                | Inl e \<Rightarrow> (Some e, s1))))"

subsection \<open>Setting the identifier\<close>

definition update_derived :: "state \<Rightarrow> error option \<times> state" where
  "update_derived s =
     (case update_overlay_file s of
        (Some e, s1) \<Rightarrow> (Some e, s1)
      | (None, s1) \<Rightarrow> update_annotations s1)"

definition girder_id_setter :: "string option \<Rightarrow> state \<Rightarrow> error option \<times> state" where
  "girder_id_setter gid s =
     (let s0 = s\<lparr>u_gider_id := Some gid, u_item_id := None, u_overlay_item_id := None\<rparr> in
      case gid of
        None \<Rightarrow> update_derived s0
      | Some g \<Rightarrow>
          if u_is_overlay_id s0 then
            (let s1 = request_made (Get (''overlay/'' @ g) []) s0 in
             case get_overlay (self_client s0) g of
               Inl e \<Rightarrow> (Some e, s1)
             | Inr ov \<Rightarrow>
                 update_derived
                   (s1\<lparr>u_item_id := Some (itemId ov),
                       u_overlay_item_id := Some (overlayItemId ov)\<rparr>))
          else
            (let item_id = g;
                 s1 = request_made (Get ''overlay'' [(''itemId'', PStr item_id)]) s0
             in case get_overlays (self_client s0) item_id of
                  Inl e \<Rightarrow> (Some e, s1)
                | Inr overlays \<Rightarrow>
                    if overlays = [] then
                      (Some (ValueError (''no overlay for item '' @ item_id)), s1)
                    else if length overlays > 1 then
                      (Some (ValueError ''multiple overlays, specifiy overlay''), s1)
                    else
                      update_derived
                        (s1\<lparr>u_item_id := Some item_id,
                            u_overlay_item_id := Some (overlayItemId (hd overlays))\<rparr>)))"

subsection \<open>Grouping the annotations\<close>

text \<open>
  \<^verbatim>\<open>itertools.groupby(iterable, key)\<close>: a group is a maximal run of consecutive
  elements whose key equals the key of the run's first element.
\<close>

function groupby :: "('a \<Rightarrow> 'k) \<Rightarrow> 'a list \<Rightarrow> ('k \<times> 'a list) list" where
  "groupby key [] = []"
| "groupby key (x # xs) =
     (key x, x # takeWhile (\<lambda>y. key y = key x) xs)
       # groupby key (dropWhile (\<lambda>y. key y = key x) xs)"
  by pat_completeness auto
termination
  by (relation "measure (\<lambda>(key, xs). length xs)")
     (auto simp: length_dropWhile_le less_Suc_eq_le)

definition keyfunc :: "annotation \<Rightarrow> string option" where
  "keyfunc annotation = (case a_name annotation of None \<Rightarrow> None | Some n \<Rightarrow> Some n)"

definition no_color_mapping_for :: "string \<Rightarrow> error" where
  "no_color_mapping_for name =
     ValueError (''no color mapping for annotation '' @ [CHR 0x22] @ name @ [CHR 0x22])"

text \<open>
  The \<^verbatim>\<open>for\<close> loop of the generator over the groups: the pairs it yields, in order, and
  the exception that ends it (\<open>None\<close> when it is exhausted). A group is the list of its
  records, as the one consumer, \<^verbatim>\<open>_draw_annotations\<close>, reads each group to its end
  before asking for the next.
\<close>

fun yield_groups ::
  "colormap \<Rightarrow> (string option \<times> annotation list) list
     \<Rightarrow> (color \<times> annotation list) list \<times> error option" where
  "yield_groups cm [] = ([], None)"
| "yield_groups cm ((None, annotation_group) # rest) = yield_groups cm rest"
| "yield_groups cm ((Some name, annotation_group) # rest) =
     (case cm name of
        None \<Rightarrow> ([], Some (no_color_mapping_for name))
      | Some color \<Rightarrow>
          (case yield_groups cm rest of
             (yielded, e) \<Rightarrow> ((color, annotation_group) # yielded, e)))"

definition annotations_iterator ::
  "state \<Rightarrow> (color \<times> annotation list) list \<times> error option" where
  "annotations_iterator s =
     (case u_annotations s of
        None \<Rightarrow> ([], None)
      | Some anns \<Rightarrow>
          (case u_colormap s of
             None \<Rightarrow> ([], Some (ValueError ''no color mapping set''))
           | Some cm \<Rightarrow> yield_groups cm (groupby keyfunc anns)))"

definition annotations :: "state \<Rightarrow> (color \<times> annotation list) list \<times> error option" where
  "annotations s = annotations_iterator s"

subsection \<open>Acquiring the image\<close>

definition close_temp :: "tmp_path \<Rightarrow> state \<Rightarrow> state" where
  "close_temp p s = s\<lparr>open_temps := removeAll p (open_temps s)\<rparr>"

definition image_file :: "libs \<Rightarrow> state \<Rightarrow> (error + tmp_path option) \<times> state" where
  "image_file L s =
     (case u_overlay_file s of
        None \<Rightarrow> (Inr None, s)
      | Some f \<Rightarrow>
          (let extension = snd (splitext L (f_name f));
               p = TmpPath (temps_created s) extension;
               s1 = s\<lparr>open_temps := open_temps s @ [p], temps_created := Suc (temps_created s)\<rparr>;
               s2 = request_made (DownloadFile (f_id f) p) s1
           in case downloadFile (self_client s) (f_id f) p of
                Some e \<Rightarrow> (Inl e, s2)
              | None \<Rightarrow> (Inr (Some p), s2)))"

text \<open>
  \<^verbatim>\<open>image_file.name\<close> on \<^verbatim>\<open>None\<close> is an \<open>AttributeError\<close>, which no handler of
  \<^verbatim>\<open>image\<close> catches. The inner handler's bare \<^verbatim>\<open>raise\<close> raises again the exception
  being handled there, the one bound to \<^verbatim>\<open>pytiff_exception\<close>. \<^verbatim>\<open>image_file.close()\<close>
  is the statement after the \<^verbatim>\<open>try\<close>: it runs when no exception left the \<^verbatim>\<open>try\<close>.
\<close>

definition image :: "libs \<Rightarrow> state \<Rightarrow> (error + image) \<times> state" where
  "image L s =
     (case image_file L s of
        (Inl e, s1) \<Rightarrow> (Inl e, s1)
      | (Inr None, s1) \<Rightarrow> (Inl (AttributeError ''name''), s1)
      | (Inr (Some p), s1) \<Rightarrow>
          (case Image_open L p of
             Inr img \<Rightarrow> (Inr img, close_temp p s1)
           | Inl pillow_exception \<Rightarrow>
               if is_IOError_or_OSError pillow_exception then
                 (case pytiff_open L p of
                    Inr img \<Rightarrow> (Inr img, close_temp p s1)
                  | Inl pytiff_exception \<Rightarrow>
                      if is_IOError_or_OSError pytiff_exception
                      then (Inl pytiff_exception, s1)
                      else (Inl pytiff_exception, s1))
               else (Inl pillow_exception, s1)))"

subsection \<open>Drawing\<close>

text \<open>
  Python's \<^verbatim>\<open>+\<close> on two numbers: exact on integers, the float sum on floats, an integer
  being converted first when the other operand is a float.
\<close>

fun py_add :: "libs \<Rightarrow> number \<Rightarrow> number \<Rightarrow> error + number" where
  "py_add L (PyInt a) (PyInt b) = Inr (PyInt (a + b))"
| "py_add L (PyFloat a) (PyFloat b) = Inr (PyFloat (float_add L a b))"
| "py_add L (PyInt a) (PyFloat b) =
     (case float_of_int L a of
        Inl e \<Rightarrow> Inl e
      | Inr a' \<Rightarrow> Inr (PyFloat (float_add L a' b)))"
| "py_add L (PyFloat a) (PyInt b) =
     (case float_of_int L b of
        Inl e \<Rightarrow> Inl e
      | Inr b' \<Rightarrow> Inr (PyFloat (float_add L a b')))"

text \<open>
  One element: \<^verbatim>\<open>xy\<close> is built, then the drawing call is made, and the element's
  outcome is the call's. In the rectangle branch the expressions are evaluated in the
  order written: the slice \<^verbatim>\<open>[:2]\<close> (which never raises), \<^verbatim>\<open>center[0] + width\<close>, then
  \<^verbatim>\<open>center[1] + height\<close>; an index past the end of the list raises \<open>IndexError\<close>.
\<close>

definition draw_element :: "libs \<Rightarrow> color \<Rightarrow> element \<Rightarrow> image \<Rightarrow> error + image" where
  "draw_element L color element img =
     (if e_type element = ''point'' then
        ImageDraw_point L [take 2 (e_center element)] color img
      else if e_type element = ''rectangle'' then
        (case e_center element of
           [] \<Rightarrow> Inl IndexError
         | c0 # cs \<Rightarrow>
             (case py_add L c0 (e_width element) of
                Inl e \<Rightarrow> Inl e
              | Inr x1 \<Rightarrow>
                  (case cs of
                     [] \<Rightarrow> Inl IndexError
                   | c1 # cs1 \<Rightarrow>
                       (case py_add L c1 (e_height element) of
                          Inl e \<Rightarrow> Inl e
                        | Inr y1 \<Rightarrow>
                            ImageDraw_rectangle L [take 2 (e_center element), [x1, y1]]
                              color color img))))
      else if e_type element = ''polyline'' then
        ImageDraw_polygon L (map (take 2) (e_points element)) color color img
      else Inl (ValueError (''invalid element type: '' @ e_type element)))"

fun draw_elements :: "libs \<Rightarrow> color \<Rightarrow> element list \<Rightarrow> image \<Rightarrow> error + image" where
  "draw_elements L color [] img = Inr img"
| "draw_elements L color (element # rest) img =
     (case draw_element L color element img of
        Inl e \<Rightarrow> Inl e
      | Inr img1 \<Rightarrow> draw_elements L color rest img1)"

fun draw_group :: "libs \<Rightarrow> color \<Rightarrow> annotation list \<Rightarrow> image \<Rightarrow> error + image" where
  "draw_group L color [] img = Inr img"
| "draw_group L color (annotation # rest) img =
     (case draw_elements L color (a_elements annotation) img of
        Inl e \<Rightarrow> Inl e
      | Inr img1 \<Rightarrow> draw_group L color rest img1)"

fun draw_groups :: "libs \<Rightarrow> (color \<times> annotation list) list \<Rightarrow> image \<Rightarrow> error + image" where
  "draw_groups L [] img = Inr img"
| "draw_groups L ((color, annotation_group) # rest) img =
     (case draw_group L color annotation_group img of
        Inl e \<Rightarrow> Inl e
      | Inr img1 \<Rightarrow> draw_groups L rest img1)"

text \<open>
  The generator is read as the loop runs: the groups it yields are drawn first, and the
  exception that ends it is raised after them.
\<close>

definition draw_annotations :: "libs \<Rightarrow> state \<Rightarrow> (error + image) \<times> state" where
  "draw_annotations L s =
     (case image L s of
        (Inl e, s1) \<Rightarrow> (Inl e, s1)
      | (Inr img, s1) \<Rightarrow>
          (case ImageDraw_Draw L img of
             Some e \<Rightarrow> (Inl e, s1)
           | None \<Rightarrow>
               (case annotations s1 of
                  (yielded, ended) \<Rightarrow>
                    (case draw_groups L yielded img of
                       Inl e \<Rightarrow> (Inl e, s1)
                     | Inr img1 \<Rightarrow>
                         (case ended of
                            Some e \<Rightarrow> (Inl e, s1)
                          | None \<Rightarrow> (Inr img1, s1))))))"

definition save :: "libs \<Rightarrow> string \<Rightarrow> state \<Rightarrow> error option \<times> state" where
  "save L output_filename s =
     (case draw_annotations L s of
        (Inl e, s1) \<Rightarrow> (Some e, s1)
      | (Inr img, s1) \<Rightarrow>
          (case Image_save L img output_filename of
             Some e \<Rightarrow> (Some e, s1)
           | None \<Rightarrow> (None, s1\<lparr>written := written s1 @ [(output_filename, img)]\<rparr>)))"

subsection \<open>Sequences of operations\<close>

text \<open>
  The operations of the class that change anything: the three setters, reading
  \<^verbatim>\<open>image_file\<close> or \<^verbatim>\<open>image\<close>, and \<^verbatim>\<open>save\<close>. \<open>perform\<close> gives the state an operation
  leaves, whether it returned or raised.
\<close>

datatype operation =
    SetColormap "string option"
  | SetIsOverlayId bool
  | SetGirderId "string option"
  | GetImageFile
  | GetImage
  | Save string

fun perform :: "libs \<Rightarrow> operation \<Rightarrow> state \<Rightarrow> state" where
  "perform L (SetColormap f) s = snd (colormap_setter L f s)"
| "perform L (SetIsOverlayId b) s = is_overlay_id_setter b s"
| "perform L (SetGirderId gid) s = snd (girder_id_setter gid s)"
| "perform L GetImageFile s = snd (image_file L s)"
| "perform L GetImage s = snd (image L s)"
| "perform L (Save f) s = snd (save L f s)"

fun perform_all :: "libs \<Rightarrow> operation list \<Rightarrow> state \<Rightarrow> state" where
  "perform_all L [] s = s"
| "perform_all L (op # ops) s = perform_all L ops (perform L op s)"

section \<open>The drawing library\<close>


section \<open>Auxiliary notions\<close>

text \<open>Runs of records given with their labels, as \<open>groupby\<close> returns them under \<open>keyfunc\<close>.\<close>

definition labelled :: "(string \<times> annotation list) list \<Rightarrow> (string option \<times> annotation list) list" where
  "labelled runs = map (\<lambda>(l, g). (Some l, g)) runs"

section \<open>Example data\<close>

text \<open>
  Concrete collaborators, records and states, on which the theorems below are
  instantiated. \<open>stub_client\<close> is a registry with nothing in it. \<open>stub_libs\<close> is a
  library that loads, decodes and saves without an exception and draws rectangles only;
  its float arithmetic is a placeholder, as no example has a float. The other clients
  and libraries change some of their answers.
\<close>

definition record_named :: "string \<Rightarrow> string option \<Rightarrow> annotation" where
  "record_named i n = \<lparr>a_id = i, a_name = n, a_elements = []\<rparr>"

definition file_of :: "string \<Rightarrow> string \<Rightarrow> file_desc" where
  "file_of i m = \<lparr>f_id = i, f_name = i, mimeType = m\<rparr>"


definition blank_image :: image where
  "blank_image = \<lparr>img_width = 10, img_height = 10, img_pixels = (\<lambda>p. ColorValue 0)\<rparr>"

text \<open>
  The \<^verbatim>\<open>rectangle\<close> call of the example library. It fills the box between two integer
  corners, as the spec has the drawing library do, and it raises when the second corner
  is left of or above the first, when the fill colour is a list, or when the corners
  are not integers.
\<close>

fun box_rectangle :: "number list list \<Rightarrow> color \<Rightarrow> color \<Rightarrow> image \<Rightarrow> error + image" where
  "box_rectangle [[PyInt x0, PyInt y0], [PyInt x1, PyInt y1]] outline fill img =
     (if x1 < x0 \<or> y1 < y0 then Inl (ValueError ''x1 must be greater than or equal to x0'')
      else if (case fill of ColorList l \<Rightarrow> True | _ \<Rightarrow> False) then Inl (OtherError ''TypeError'')
      else Inr (img\<lparr>img_pixels :=
                  (\<lambda>(x, y). if x0 \<le> x \<and> x \<le> x1 \<and> y0 \<le> y \<and> y \<le> y1
                            then (if x = x0 \<or> x = x1 \<or> y = y0 \<or> y = y1 then outline else fill)
                            else img_pixels img (x, y))\<rparr>))"
| "box_rectangle xy outline fill img = Inl (OtherError ''TypeError'')"

definition three_colors :: colormap where
  "three_colors = [''A'' \<mapsto> ColorValue 1, ''B'' \<mapsto> ColorValue 2, ''C'' \<mapsto> ColorValue 3]"

definition stub_client :: client where
  "stub_client =
     \<lparr> get_overlay = (\<lambda>i. Inl (HttpError 404)),
       get_overlays = (\<lambda>i. Inr []),
       get_item_files = (\<lambda>i n. Inr []),
       getItem = (\<lambda>i. Inr \<lparr>largeImage = None\<rparr>),
       get_annotation_item = (\<lambda>i. Inr []),
       get_annotations = (\<lambda>i n. Inr []),
       get_annotation = (\<lambda>i. Inl (HttpError 404)),
       downloadFile = (\<lambda>i p. None) \<rparr>"

definition working_client :: client where
  "working_client =
     stub_client\<lparr>
       get_overlays := (\<lambda>i. Inr [\<lparr>itemId = i, overlayItemId = ''ov1''\<rparr>]),
       get_item_files := (\<lambda>i n. Inr [file_of ''f1'' ''image/tiff''])\<rparr>"

definition fallback_client :: "nat \<Rightarrow> client" where
  "fallback_client status =
     stub_client\<lparr>
       get_annotation_item := (\<lambda>i. Inl (HttpError status)),
       get_annotations := (\<lambda>i n. Inr [record_named ''a1'' None, record_named ''a2'' None]),
       get_annotation := (\<lambda>i. Inr (record_named i (Some ''A'')))\<rparr>"

definition stub_libs :: libs where
  "stub_libs =
     \<lparr> json_load = (\<lambda>f. Inr three_colors),
       splitext = (\<lambda>n. (n, [])),
       Image_open = (\<lambda>p. Inr blank_image),
       pytiff_open = (\<lambda>p. Inr blank_image),
       Image_save = (\<lambda>img f. None),
       ImageDraw_Draw = (\<lambda>img. None),
       ImageDraw_point = (\<lambda>xy fill img. Inl (OtherError ''not in the example library'')),
       ImageDraw_rectangle = box_rectangle,
       ImageDraw_polygon = (\<lambda>xy outline fill img. Inl (OtherError ''not in the example library'')),
       float_add = (\<lambda>a b. a),
       float_of_int = (\<lambda>n. Inl (OtherError ''OverflowError'')) \<rparr>"

definition failing_libs :: "error \<Rightarrow> error \<Rightarrow> libs" where
  "failing_libs e1 e2 =
     stub_libs\<lparr>splitext := (\<lambda>n. (''overlay'', ''.tif'')),
               Image_open := (\<lambda>p. Inl e1),
               pytiff_open := (\<lambda>p. Inl e2)\<rparr>"

definition resolved_state :: "client \<Rightarrow> state" where
  "resolved_state c = LabelAnnotator c (Some c)"

definition grouping_state :: "colormap option \<Rightarrow> annotation list \<Rightarrow> state" where
  "grouping_state cm anns =
     (LabelAnnotator stub_client (Some stub_client))\<lparr>u_colormap := cm, u_annotations := Some anns\<rparr>"

definition located_state :: "client \<Rightarrow> state" where
  "located_state c = (LabelAnnotator c (Some c))\<lparr>u_overlay_item_id := Some ''ov1''\<rparr>"

definition fetching_state :: "client \<Rightarrow> state" where
  "fetching_state c = (LabelAnnotator c (Some c))\<lparr>u_item_id := Some ''item1''\<rparr>"

definition acquiring_state :: state where
  "acquiring_state =
     (LabelAnnotator stub_client (Some stub_client))
       \<lparr>u_overlay_file := Some \<lparr>f_id = ''f1'', f_name = ''overlay.tif'', mimeType = ''image/tiff''\<rparr>\<rparr>"



section \<open>Properties of the identifier setter\<close>

lemma update_overlay_file_unset:
  "u_overlay_item_id s = None \<Longrightarrow> update_overlay_file s = (None, s\<lparr>u_overlay_file := None\<rparr>)"
  by (simp add: update_overlay_file_def)

lemma update_annotations_unset:
  "u_item_id s = None \<Longrightarrow> update_annotations s = (None, s\<lparr>u_annotations := None\<rparr>)"
  by (simp add: update_annotations_def)

text \<open>
  C5. Assigning \<^verbatim>\<open>None\<close> to \<^verbatim>\<open>girder_id\<close>, in any state, returns without an exception,
  leaves the base item id, the overlay item id, the overlay file and the annotations all
  unset, and makes no request to the registry: the list of requests is the one before.
\<close>

theorem girder_id_setter_None_clears:
  "fst (girder_id_setter None s) = None
   \<and> u_item_id (snd (girder_id_setter None s)) = None
   \<and> u_overlay_item_id (snd (girder_id_setter None s)) = None
   \<and> u_overlay_file (snd (girder_id_setter None s)) = None
   \<and> u_annotations (snd (girder_id_setter None s)) = None
   \<and> calls (snd (girder_id_setter None s)) = calls s"
  by (simp add: girder_id_setter_def update_derived_def update_overlay_file_unset
        update_annotations_unset)

section \<open>Grouping\<close>

lemma groupby_run_step:
  assumes "list_all (\<lambda>a. key a = k) g" and "key x = k"
    and "rest = [] \<or> key (hd rest) \<noteq> k"
  shows "groupby key (x # g @ rest) = (k, x # g) # groupby key rest"
proof -
  have g: "\<forall>a\<in>set g. key a = key x"
    using assms(1,2) by (simp add: list_all_iff)
  have r: "takeWhile (\<lambda>y. key y = key x) rest = []"
    using assms(2,3) by (cases rest) auto
  have d: "dropWhile (\<lambda>y. key y = key x) rest = rest"
    using assms(2,3) by (cases rest) auto
  show ?thesis
    using g r d assms(2) by simp
qed

lemma groupby_concat_runs:
  "list_all (\<lambda>(k, g). g \<noteq> [] \<and> list_all (\<lambda>a. key a = k) g) runs \<Longrightarrow>
   distinct_adj (map fst runs) \<Longrightarrow>
   groupby key (concat (map snd runs)) = runs"
proof (induction runs)
  case Nil
  then show ?case by simp
next
  case (Cons r runs)
  obtain k g where r: "r = (k, g)" by (cases r)
  from Cons.prems(1) r obtain x g' where g: "g = x # g'" and kx: "key x = k"
    and g': "list_all (\<lambda>a. key a = k) g'"
    by (cases g) auto
  have IH: "groupby key (concat (map snd runs)) = runs"
    using Cons by (auto simp: distinct_adj_Cons)
  have nxt: "concat (map snd runs) = [] \<or> key (hd (concat (map snd runs))) \<noteq> k"
  proof (cases runs)
    case Nil
    then show ?thesis by simp
  next
    case (Cons r2 runs2)
    obtain k2 g2 where r2: "r2 = (k2, g2)" by (cases r2)
    from Cons r2 \<open>list_all _ (r # runs)\<close> obtain y g2' where "g2 = y # g2'" and "key y = k2"
      by (cases g2) auto
    moreover have "k \<noteq> k2" using Cons.prems(2) Cons r r2 \<open>distinct_adj (map fst (r # runs))\<close> by simp
    ultimately show ?thesis using Cons r2 by simp
  qed
  have "groupby key (x # g' @ concat (map snd runs)) = (k, x # g') # runs"
    using groupby_run_step[OF g' kx nxt] IH by (simp del: groupby.simps)
  then show ?case using r g by (simp del: groupby.simps)
qed

lemma distinct_imp_distinct_adj: "distinct xs \<Longrightarrow> distinct_adj xs"
  by (induction xs) (auto simp: distinct_adj_Cons)

lemma distinct_map_Some: "distinct xs \<Longrightarrow> distinct (map Some xs)"
  by (simp add: distinct_map)

lemma yield_groups_complete:
  "list_all (\<lambda>(k, g). case k of None \<Rightarrow> True | Some l \<Rightarrow> cm l \<noteq> None) runs \<Longrightarrow>
   yield_groups cm runs =
     (concat (map (\<lambda>(k, g). case k of None \<Rightarrow> [] | Some l \<Rightarrow> [(the (cm l), g)]) runs), None)"
  by (induction cm runs rule: yield_groups.induct) auto

lemma labelled_keys: "map fst (labelled runs) = map Some (map fst runs)"
  by (induction runs) (auto simp: labelled_def)

lemma labelled_records: "concat (map snd (labelled runs)) = concat (map snd runs)"
  by (induction runs) (auto simp: labelled_def)

lemma labelled_yield:
  "concat (map (\<lambda>(k, g). case k of None \<Rightarrow> [] | Some l \<Rightarrow> [(the (cm l), g)]) (labelled runs))
   = map (\<lambda>(l, g). (the (cm l), g)) runs"
  by (induction runs) (auto simp: labelled_def)

lemma labelled_runs_ok:
  "list_all (\<lambda>(l, g). g \<noteq> [] \<and> list_all (\<lambda>a. a_name a = Some l) g) runs \<Longrightarrow>
   list_all (\<lambda>(k, g). g \<noteq> [] \<and> list_all (\<lambda>a. keyfunc a = k) g) (labelled runs)"
  by (induction runs) (auto simp: labelled_def keyfunc_def list_all_iff)

lemma labelled_mapped:
  "list_all (\<lambda>(l, g). cm l \<noteq> None) runs \<Longrightarrow>
   list_all (\<lambda>(k, g). case k of None \<Rightarrow> True | Some l \<Rightarrow> cm l \<noteq> None) (labelled runs)"
  by (induction runs) (auto simp: labelled_def)

lemma grouping_runs:
  assumes "list_all (\<lambda>(l, g). g \<noteq> [] \<and> list_all (\<lambda>a. a_name a = Some l) g) runs"
    and "distinct (map fst runs)"
    and "list_all (\<lambda>(l, g). cm l \<noteq> None) runs"
  shows "yield_groups cm (groupby keyfunc (concat (map snd runs)))
         = (map (\<lambda>(l, g). (the (cm l), g)) runs, None)"
proof -
  have "distinct_adj (map fst (labelled runs))"
    unfolding labelled_keys
    by (rule distinct_imp_distinct_adj [OF distinct_map_Some [OF assms(2)]])
  then have "groupby keyfunc (concat (map snd (labelled runs))) = labelled runs"
    using groupby_concat_runs[OF labelled_runs_ok[OF assms(1)]] by simp
  then show ?thesis
    using yield_groups_complete[OF labelled_mapped[OF assms(3)]]
    by (simp add: labelled_records labelled_yield)
qed

lemma keyfunc_eq: "keyfunc a = a_name a"
  by (simp add: keyfunc_def split: option.split)

lemma distinct_adj_around:
  assumes "distinct (ks1 @ l # ks2)"
  shows "distinct_adj (map Some ks1 @ [Some l, None, Some l] @ map Some ks2)"
proof -
  have 1: "distinct_adj (map Some ks1)" and 2: "distinct_adj (map Some ks2)"
    using assms by (auto intro!: distinct_imp_distinct_adj distinct_map_Some)
  have 3: "ks1 \<noteq> [] \<Longrightarrow> last (map Some ks1) \<noteq> Some l"
    using assms by (auto simp: last_map)
  have 4: "ks2 \<noteq> [] \<Longrightarrow> hd (map Some ks2) \<noteq> Some l"
    using assms by (auto simp: hd_map)
  show ?thesis
    using 1 2 3 4 by (auto simp: distinct_adj_append_iff distinct_adj_Cons)
qed

lemma grouping_split_run:
  assumes ok: "list_all (\<lambda>(l, g). g \<noteq> [] \<and> list_all (\<lambda>a. a_name a = Some l) g)
                 (pre @ (l, g1 @ g2) # post)"
    and dist: "distinct (map fst (pre @ (l, g1 @ g2) # post))"
    and cm: "list_all (\<lambda>(l, g). cm l \<noteq> None) (pre @ (l, g1 @ g2) # post)"
    and ne: "g1 \<noteq> []" "g2 \<noteq> []" and u: "a_name u = None"
  shows "yield_groups cm (groupby keyfunc
           (concat (map snd pre) @ g1 @ [u] @ g2 @ concat (map snd post)))
         = (map (\<lambda>(l, g). (the (cm l), g)) pre @ [(the (cm l), g1), (the (cm l), g2)]
              @ map (\<lambda>(l, g). (the (cm l), g)) post, None)"
proof -
  define R where "R = labelled pre @ [(Some l, g1), (None, [u]), (Some l, g2)] @ labelled post"
  have recs: "concat (map snd R)
              = concat (map snd pre) @ g1 @ [u] @ g2 @ concat (map snd post)"
    by (simp add: R_def labelled_records)
  have okR: "list_all (\<lambda>(k, g). g \<noteq> [] \<and> list_all (\<lambda>a. keyfunc a = k) g) R"
    using ok ne u labelled_runs_ok[of pre] labelled_runs_ok[of post]
    by (simp add: R_def keyfunc_eq)
  have "distinct_adj (map fst R)"
    using distinct_adj_around[of "map fst pre" l "map fst post"] dist
    by (simp add: R_def labelled_keys)
  then have g: "groupby keyfunc (concat (map snd R)) = R"
    using groupby_concat_runs[OF okR] by simp
  have cmR: "list_all (\<lambda>(k, g). case k of None \<Rightarrow> True | Some l \<Rightarrow> cm l \<noteq> None) R"
    using cm labelled_mapped[of cm pre] labelled_mapped[of cm post] by (simp add: R_def)
  show ?thesis
    using yield_groups_complete[OF cmR] g recs
    by (simp add: R_def labelled_yield)
qed

text \<open>
  C1 (as amended). Let the annotations be the concatenation of non-empty runs, each run
  of records carrying one label, no label on two runs, and every label in the colour
  map. Then the iterator yields one pair (colour of the label, run) per run, in the
  order of the runs, and ends without an exception. If one record without a label is put
  inside a run, between a non-empty front part and a non-empty back part, the record is
  in no group that is yielded, and the run is yielded as two groups, its front part and
  its back part, each with the colour of the run's label.
\<close>

theorem annotations_iterator_runs:
  assumes "list_all (\<lambda>(l, g). g \<noteq> [] \<and> list_all (\<lambda>a. a_name a = Some l) g) runs"
    and "distinct (map fst runs)"
    and "list_all (\<lambda>(l, g). cm l \<noteq> None) runs"
    and "u_colormap s = Some cm"
  shows "(u_annotations s = Some (concat (map snd runs)) \<longrightarrow>
            annotations_iterator s = (map (\<lambda>(l, g). (the (cm l), g)) runs, None))
       \<and> (\<forall>pre l g1 g2 post u.
            runs = pre @ (l, g1 @ g2) # post \<and> g1 \<noteq> [] \<and> g2 \<noteq> [] \<and> a_name u = None
            \<and> u_annotations s
                = Some (concat (map snd pre) @ g1 @ [u] @ g2 @ concat (map snd post)) \<longrightarrow>
            annotations_iterator s
              = (map (\<lambda>(l, g). (the (cm l), g)) pre @ [(the (cm l), g1), (the (cm l), g2)]
                   @ map (\<lambda>(l, g). (the (cm l), g)) post, None)
            \<and> u \<notin> set (concat (map snd (fst (annotations_iterator s)))))"
proof (intro conjI allI impI)
  assume "u_annotations s = Some (concat (map snd runs))"
  then show "annotations_iterator s = (map (\<lambda>(l, g). (the (cm l), g)) runs, None)"
    using grouping_runs[OF assms(1-3)] assms(4) by (simp add: annotations_iterator_def)
next
  fix pre l g1 g2 post u
  assume h: "runs = pre @ (l, g1 @ g2) # post \<and> g1 \<noteq> [] \<and> g2 \<noteq> [] \<and> a_name u = None
            \<and> u_annotations s
                = Some (concat (map snd pre) @ g1 @ [u] @ g2 @ concat (map snd post))"
  show r: "annotations_iterator s
        = (map (\<lambda>(l, g). (the (cm l), g)) pre @ [(the (cm l), g1), (the (cm l), g2)]
             @ map (\<lambda>(l, g). (the (cm l), g)) post, None)"
    using grouping_split_run[of pre l g1 g2 post cm u] assms h
    by (simp add: annotations_iterator_def)
  have "\<forall>a \<in> set (concat (map snd runs)). a_name a \<noteq> None"
    using assms(1) by (induction runs) (auto simp: list_all_iff)
  then have "u \<notin> set (concat (map snd runs))"
    using h by blast
  then show "u \<notin> set (concat (map snd (fst (annotations_iterator s))))"
    using h by (simp add: r case_prod_beta)
qed

theorem annotations_iterator_runs_witness:
  "annotations_iterator
     (grouping_state (Some three_colors)
        [record_named ''1'' (Some ''A''), record_named ''2'' (Some ''A''),
         record_named ''3'' (Some ''B''), record_named ''4'' (Some ''B''),
         record_named ''5'' (Some ''C'')])
   = ([(ColorValue 1, [record_named ''1'' (Some ''A''), record_named ''2'' (Some ''A'')]),
       (ColorValue 2, [record_named ''3'' (Some ''B''), record_named ''4'' (Some ''B'')]),
       (ColorValue 3, [record_named ''5'' (Some ''C'')])], None)
   \<and> annotations_iterator
     (grouping_state (Some three_colors)
        [record_named ''1'' (Some ''A''), record_named ''6'' None, record_named ''2'' (Some ''A''),
         record_named ''3'' (Some ''B'')])
   = ([(ColorValue 1, [record_named ''1'' (Some ''A'')]),
       (ColorValue 1, [record_named ''2'' (Some ''A'')]),
       (ColorValue 2, [record_named ''3'' (Some ''B'')])], None)"
proof
  let ?runs = "[(''A'', [record_named ''1'' (Some ''A''), record_named ''2'' (Some ''A'')]),
                (''B'', [record_named ''3'' (Some ''B''), record_named ''4'' (Some ''B'')]),
                (''C'', [record_named ''5'' (Some ''C'')])]"
  let ?s = "grouping_state (Some three_colors) (concat (map snd ?runs))"
  have a1: "list_all (\<lambda>(l, g). g \<noteq> [] \<and> list_all (\<lambda>a. a_name a = Some l) g) ?runs"
    by (simp add: record_named_def)
  have a2: "distinct (map fst ?runs)" by simp
  have a3: "list_all (\<lambda>(l, g). three_colors l \<noteq> None) ?runs"
    by (simp add: three_colors_def)
  have a4: "u_colormap ?s = Some three_colors"
    by (simp add: grouping_state_def)
  have a5: "u_annotations ?s = Some (concat (map snd ?runs))"
    by (simp add: grouping_state_def)
  from annotations_iterator_runs [OF a1 a2 a3 a4, THEN conjunct1, rule_format, OF a5]
  show "annotations_iterator
     (grouping_state (Some three_colors)
        [record_named ''1'' (Some ''A''), record_named ''2'' (Some ''A''),
         record_named ''3'' (Some ''B''), record_named ''4'' (Some ''B''),
         record_named ''5'' (Some ''C'')])
   = ([(ColorValue 1, [record_named ''1'' (Some ''A''), record_named ''2'' (Some ''A'')]),
       (ColorValue 2, [record_named ''3'' (Some ''B''), record_named ''4'' (Some ''B'')]),
       (ColorValue 3, [record_named ''5'' (Some ''C'')])], None)"
    by (simp add: three_colors_def)
next
  let ?runs = "[(''A'', [record_named ''1'' (Some ''A''), record_named ''2'' (Some ''A'')]),
                (''B'', [record_named ''3'' (Some ''B'')])]"
  let ?anns = "[record_named ''1'' (Some ''A''), record_named ''6'' None,
                record_named ''2'' (Some ''A''), record_named ''3'' (Some ''B'')]"
  let ?s = "grouping_state (Some three_colors) ?anns"
  have a1: "list_all (\<lambda>(l, g). g \<noteq> [] \<and> list_all (\<lambda>a. a_name a = Some l) g) ?runs"
    by (simp add: record_named_def)
  have a2: "distinct (map fst ?runs)" by simp
  have a3: "list_all (\<lambda>(l, g). three_colors l \<noteq> None) ?runs"
    by (simp add: three_colors_def)
  have a4: "u_colormap ?s = Some three_colors"
    by (simp add: grouping_state_def)
  have a5: "?runs = [] @ (''A'', [record_named ''1'' (Some ''A'')] @ [record_named ''2'' (Some ''A'')])
                       # [(''B'', [record_named ''3'' (Some ''B'')])]
            \<and> [record_named ''1'' (Some ''A'')] \<noteq> [] \<and> [record_named ''2'' (Some ''A'')] \<noteq> []
            \<and> a_name (record_named ''6'' None) = None
            \<and> u_annotations ?s
                = Some (concat (map snd []) @ [record_named ''1'' (Some ''A'')]
                         @ [record_named ''6'' None] @ [record_named ''2'' (Some ''A'')]
                         @ concat (map snd [(''B'', [record_named ''3'' (Some ''B'')])]))"
    by (simp add: grouping_state_def record_named_def)
  from annotations_iterator_runs [OF a1 a2 a3 a4, THEN conjunct2, rule_format, OF a5, THEN conjunct1]
  show "annotations_iterator ?s
   = ([(ColorValue 1, [record_named ''1'' (Some ''A'')]),
       (ColorValue 1, [record_named ''2'' (Some ''A'')]),
       (ColorValue 2, [record_named ''3'' (Some ''B'')])], None)"
    by (simp add: three_colors_def)
qed

text \<open>
  C1 as stated fails on the records labelled A, none, A, with A in the colour map: two
  groups are yielded, not one.
\<close>

theorem unlabelled_record_splits_run:
  "annotations_iterator
     (grouping_state (Some three_colors)
        [record_named ''1'' (Some ''A''), record_named ''6'' None, record_named ''2'' (Some ''A'')])
   = ([(ColorValue 1, [record_named ''1'' (Some ''A'')]),
       (ColorValue 1, [record_named ''2'' (Some ''A'')])], None)
   \<and> length (fst (annotations_iterator
     (grouping_state (Some three_colors)
        [record_named ''1'' (Some ''A''), record_named ''6'' None, record_named ''2'' (Some ''A'')])))
     \<noteq> 1"
  by (simp add: annotations_iterator_def grouping_state_def record_named_def three_colors_def
        keyfunc_def)

section \<open>Errors of the grouping\<close>

lemma groupby_keys: "fst ` set (groupby key xs) = key ` set xs"
proof (induction key xs rule: groupby.induct)
  case (1 key)
  then show ?case by simp
next
  case (2 key x xs)
  have "set xs = set (takeWhile (\<lambda>y. key y = key x) xs) \<union> set (dropWhile (\<lambda>y. key y = key x) xs)"
    by (metis set_append takeWhile_dropWhile_id)
  moreover have "key ` set (takeWhile (\<lambda>y. key y = key x) xs) \<subseteq> {key x}"
    by (auto dest: set_takeWhileD)
  ultimately show ?case using 2 by auto
qed

lemma yield_groups_missing:
  "(Some l, g) \<in> set groups \<Longrightarrow> cm l = None \<Longrightarrow>
   \<exists>l' g'. (Some l', g') \<in> set groups \<and> cm l' = None
     \<and> snd (yield_groups cm groups) = Some (no_color_mapping_for l')"
proof (induction cm groups rule: yield_groups.induct)
  case (1 cm)
  then show ?case by simp
next
  case (2 cm annotation_group rest)
  then show ?case by auto
next
  case (3 cm name annotation_group rest)
  show ?case
  proof (cases "cm name")
    case None
    then show ?thesis by auto
  next
    case (Some color)
    with 3 obtain l' g' where "(Some l', g') \<in> set rest" "cm l' = None"
      "snd (yield_groups cm rest) = Some (no_color_mapping_for l')"
      by auto
    then show ?thesis using Some by (auto split: prod.splits)
  qed
qed

text \<open>
  C8. When the annotations are set (to any sequence): with no colour map the iterator
  raises ValueError('no color mapping set') having yielded nothing; with a colour map in
  which the label of some record is missing, it ends with the ValueError that names a
  label of the sequence that is missing from the map; and assigning a colour-map file
  that loads succeeds and stores the loaded map whatever labels the annotations carry,
  so a missing entry is an error of the iterator, not of the load.
\<close>

theorem annotations_iterator_config_errors:
  assumes "u_annotations s = Some anns"
  shows "(u_colormap s = None \<longrightarrow>
            annotations_iterator s = ([], Some (ValueError ''no color mapping set'')))
       \<and> (\<forall>cm a l. u_colormap s = Some cm \<and> a \<in> set anns \<and> a_name a = Some l \<and> cm l = None \<longrightarrow>
            (\<exists>l' a'. a' \<in> set anns \<and> a_name a' = Some l' \<and> cm l' = None
               \<and> snd (annotations_iterator s) = Some (no_color_mapping_for l')))
       \<and> (\<forall>L f m. f \<noteq> [] \<and> json_load L f = Inr m \<longrightarrow>
            colormap_setter L (Some f) s = (None, s\<lparr>u_colormap := Some m\<rparr>))"
proof (intro conjI allI impI)
  assume "u_colormap s = None"
  then show "annotations_iterator s = ([], Some (ValueError ''no color mapping set''))"
    using assms by (simp add: annotations_iterator_def)
next
  fix cm a l
  assume h: "u_colormap s = Some cm \<and> a \<in> set anns \<and> a_name a = Some l \<and> cm l = None"
  then have "Some l \<in> keyfunc ` set anns"
    by (metis image_eqI keyfunc_eq)
  then obtain g where "(Some l, g) \<in> set (groupby keyfunc anns)"
    using groupby_keys[of keyfunc anns] by force
  from yield_groups_missing[OF this, of cm] h
  obtain l' g' where 1: "(Some l', g') \<in> set (groupby keyfunc anns)" and 2: "cm l' = None"
    and 3: "snd (yield_groups cm (groupby keyfunc anns)) = Some (no_color_mapping_for l')"
    by auto
  from 1 have "Some l' \<in> keyfunc ` set anns"
    using groupby_keys[of keyfunc anns] by force
  then obtain a' where "a' \<in> set anns" "a_name a' = Some l'"
    by (auto simp: keyfunc_eq)
  then show "\<exists>l' a'. a' \<in> set anns \<and> a_name a' = Some l' \<and> cm l' = None
               \<and> snd (annotations_iterator s) = Some (no_color_mapping_for l')"
    using 2 3 assms h by (auto simp: annotations_iterator_def)
next
  fix L :: libs and f m
  assume "f \<noteq> [] \<and> json_load L f = Inr m"
  then show "colormap_setter L (Some f) s = (None, s\<lparr>u_colormap := Some m\<rparr>)"
    by (simp add: colormap_setter_def)
qed

theorem annotations_iterator_config_errors_witness:
  "annotations_iterator (grouping_state None [record_named ''1'' (Some ''A'')])
     = ([], Some (ValueError ''no color mapping set''))
   \<and> (\<exists>l' a'. a' \<in> set [record_named ''1'' (Some ''A''), record_named ''2'' (Some ''D'')]
         \<and> a_name a' = Some l' \<and> three_colors l' = None
         \<and> snd (annotations_iterator
                  (grouping_state (Some three_colors)
                     [record_named ''1'' (Some ''A''), record_named ''2'' (Some ''D'')]))
             = Some (no_color_mapping_for l'))
   \<and> colormap_setter stub_libs (Some ''colors.json'')
        (grouping_state None [record_named ''2'' (Some ''D'')])
      = (None, (grouping_state None [record_named ''2'' (Some ''D'')])\<lparr>u_colormap := Some three_colors\<rparr>)"
proof (intro conjI)
  let ?s = "grouping_state None [record_named ''1'' (Some ''A'')]"
  have a: "u_annotations ?s = Some [record_named ''1'' (Some ''A'')]"
    by (simp add: grouping_state_def)
  have b: "u_colormap ?s = None"
    by (simp add: grouping_state_def)
  from annotations_iterator_config_errors [OF a, THEN conjunct1, rule_format, OF b]
  show "annotations_iterator ?s = ([], Some (ValueError ''no color mapping set''))" .
next
  let ?anns = "[record_named ''1'' (Some ''A''), record_named ''2'' (Some ''D'')]"
  let ?s = "grouping_state (Some three_colors) ?anns"
  have a: "u_annotations ?s = Some ?anns"
    by (simp add: grouping_state_def)
  have b: "u_colormap ?s = Some three_colors \<and> record_named ''2'' (Some ''D'') \<in> set ?anns
           \<and> a_name (record_named ''2'' (Some ''D'')) = Some ''D'' \<and> three_colors ''D'' = None"
    by (simp add: grouping_state_def record_named_def three_colors_def)
  from annotations_iterator_config_errors [OF a, THEN conjunct2, THEN conjunct1, rule_format, OF b]
  show "\<exists>l' a'. a' \<in> set ?anns \<and> a_name a' = Some l' \<and> three_colors l' = None
         \<and> snd (annotations_iterator ?s) = Some (no_color_mapping_for l')" .
next
  let ?s = "grouping_state None [record_named ''2'' (Some ''D'')]"
  have a: "u_annotations ?s = Some [record_named ''2'' (Some ''D'')]"
    by (simp add: grouping_state_def)
  have b: "''colors.json'' \<noteq> [] \<and> json_load stub_libs ''colors.json'' = Inr three_colors"
    by (simp add: stub_libs_def)
  from annotations_iterator_config_errors [OF a, THEN conjunct2, THEN conjunct2, rule_format, OF b]
  show "colormap_setter stub_libs (Some ''colors.json'') ?s
      = (None, ?s\<lparr>u_colormap := Some three_colors\<rparr>)" .
qed

section \<open>What the update functions leave unchanged\<close>

lemma fetch_each_frame:
  "u_item_id (snd (fetch_each c xs s)) = u_item_id s
   \<and> u_overlay_item_id (snd (fetch_each c xs s)) = u_overlay_item_id s
   \<and> u_girder_id (snd (fetch_each c xs s)) = u_girder_id s
   \<and> u_gider_id (snd (fetch_each c xs s)) = u_gider_id s"
  by (induction xs arbitrary: s) (auto simp: Let_def request_made_def split: sum.splits)

lemma update_annotations_frame:
  "u_item_id (snd (update_annotations s)) = u_item_id s
   \<and> u_overlay_item_id (snd (update_annotations s)) = u_overlay_item_id s
   \<and> u_girder_id (snd (update_annotations s)) = u_girder_id s
   \<and> u_gider_id (snd (update_annotations s)) = u_gider_id s"
  by (auto simp: update_annotations_def Let_def request_made_def fetch_each_frame
        split: option.splits sum.splits error.splits)

lemma exclude_large_image_frame:
  "u_item_id (snd (exclude_large_image oid fs s)) = u_item_id s
   \<and> u_overlay_item_id (snd (exclude_large_image oid fs s)) = u_overlay_item_id s
   \<and> u_girder_id (snd (exclude_large_image oid fs s)) = u_girder_id s
   \<and> u_gider_id (snd (exclude_large_image oid fs s)) = u_gider_id s"
  by (auto simp: exclude_large_image_def Let_def request_made_def split: sum.splits)

lemma update_overlay_file_frame:
  "u_item_id (snd (update_overlay_file s)) = u_item_id s
   \<and> u_overlay_item_id (snd (update_overlay_file s)) = u_overlay_item_id s
   \<and> u_girder_id (snd (update_overlay_file s)) = u_girder_id s
   \<and> u_gider_id (snd (update_overlay_file s)) = u_gider_id s"
proof (cases "u_overlay_item_id s")
  case None
  then show ?thesis by (simp add: update_overlay_file_def)
next
  case (Some oid)
  show ?thesis
  proof (cases "get_item_files (self_client s) oid 2")
    case (Inl e)
    then show ?thesis using Some by (simp add: update_overlay_file_def request_made_def)
  next
    case (Inr files)
    let ?s1 = "request_made (Get (''item/'' @ oid @ ''/files'') [(''limit'', PInt 2)]) s"
    obtain r s2 where x: "exclude_large_image oid
        (filter (\<lambda>f. startswith (mimeType f) ''image'') files) ?s1 = (r, s2)"
      by (cases "exclude_large_image oid
        (filter (\<lambda>f. startswith (mimeType f) ''image'') files) ?s1")
    have "u_item_id s2 = u_item_id s \<and> u_overlay_item_id s2 = u_overlay_item_id s
          \<and> u_girder_id s2 = u_girder_id s \<and> u_gider_id s2 = u_gider_id s"
      using exclude_large_image_frame[of oid "filter (\<lambda>f. startswith (mimeType f) ''image'') files" ?s1] x
      by (simp add: request_made_def)
    then show ?thesis
      using Some Inr x
      by (auto simp: update_overlay_file_def Let_def request_made_def split: sum.splits list.splits)
  qed
qed

lemma update_derived_frame:
  "u_item_id (snd (update_derived s)) = u_item_id s
   \<and> u_overlay_item_id (snd (update_derived s)) = u_overlay_item_id s
   \<and> u_girder_id (snd (update_derived s)) = u_girder_id s
   \<and> u_gider_id (snd (update_derived s)) = u_gider_id s"
proof (cases "update_overlay_file s")
  case (Pair r s1)
  then show ?thesis
    using update_overlay_file_frame[of s] update_annotations_frame[of s1]
    by (cases r) (auto simp: update_derived_def)
qed

section \<open>Resolving a base item\<close>

text \<open>
  C4. With \<^verbatim>\<open>is_overlay_id\<close> false and the registry answering the overlay query for the
  identifier with a list: an empty list makes the setter raise
  ValueError('no overlay for item <id>') (the spec's NotFoundError); more than one
  overlay makes it raise ValueError('multiple overlays, specifiy overlay') (the spec's
  AmbiguousError), and in both cases the two ids stay unset; exactly one overlay makes
  it store the identifier as \<^verbatim>\<open>_item_id\<close> and the overlay's \<^verbatim>\<open>overlayItemId\<close> as
  \<^verbatim>\<open>_overlay_item_id\<close>, and both are still there when the setter ends.
\<close>

theorem girder_id_setter_base_item:
  assumes "\<not> u_is_overlay_id s"
    and "get_overlays (self_client s) g = Inr overlays"
  shows "(overlays = [] \<longrightarrow>
            fst (girder_id_setter (Some g) s) = Some (ValueError (''no overlay for item '' @ g))
            \<and> u_item_id (snd (girder_id_setter (Some g) s)) = None
            \<and> u_overlay_item_id (snd (girder_id_setter (Some g) s)) = None)
       \<and> (length overlays > 1 \<longrightarrow>
            fst (girder_id_setter (Some g) s)
              = Some (ValueError ''multiple overlays, specifiy overlay'')
            \<and> u_item_id (snd (girder_id_setter (Some g) s)) = None
            \<and> u_overlay_item_id (snd (girder_id_setter (Some g) s)) = None)
       \<and> (\<forall>ov. overlays = [ov] \<longrightarrow>
            u_item_id (snd (girder_id_setter (Some g) s)) = Some g
            \<and> u_overlay_item_id (snd (girder_id_setter (Some g) s)) = Some (overlayItemId ov))"
proof (intro conjI allI impI)
  assume "overlays = []"
  then show "fst (girder_id_setter (Some g) s) = Some (ValueError (''no overlay for item '' @ g))"
    "u_item_id (snd (girder_id_setter (Some g) s)) = None"
    "u_overlay_item_id (snd (girder_id_setter (Some g) s)) = None"
    using assms by (simp_all add: girder_id_setter_def Let_def request_made_def)
next
  assume "length overlays > 1"
  then have "overlays \<noteq> []" by auto
  then show "fst (girder_id_setter (Some g) s)
              = Some (ValueError ''multiple overlays, specifiy overlay'')"
    "u_item_id (snd (girder_id_setter (Some g) s)) = None"
    "u_overlay_item_id (snd (girder_id_setter (Some g) s)) = None"
    using assms \<open>length overlays > 1\<close>
    by (simp_all add: girder_id_setter_def Let_def request_made_def)
next
  fix ov
  assume "overlays = [ov]"
  then have "girder_id_setter (Some g) s
    = update_derived
        ((request_made (Get ''overlay'' [(''itemId'', PStr g)])
            (s\<lparr>u_gider_id := Some (Some g), u_item_id := None, u_overlay_item_id := None\<rparr>))
         \<lparr>u_item_id := Some g, u_overlay_item_id := Some (overlayItemId ov)\<rparr>)"
    using assms by (simp add: girder_id_setter_def Let_def)
  then show "u_item_id (snd (girder_id_setter (Some g) s)) = Some g"
    "u_overlay_item_id (snd (girder_id_setter (Some g) s)) = Some (overlayItemId ov)"
    by (simp_all add: update_derived_frame)
qed

theorem girder_id_setter_base_item_witness:
  "fst (girder_id_setter (Some ''item1'') (resolved_state stub_client))
     = Some (ValueError ''no overlay for item item1'')
   \<and> fst (girder_id_setter (Some ''item1'')
        (resolved_state (stub_client\<lparr>get_overlays :=
           (\<lambda>i. Inr [\<lparr>itemId = i, overlayItemId = ''ov1''\<rparr>, \<lparr>itemId = i, overlayItemId = ''ov2''\<rparr>])\<rparr>)))
     = Some (ValueError ''multiple overlays, specifiy overlay'')
   \<and> u_item_id (snd (girder_id_setter (Some ''item1'')
        (resolved_state (stub_client\<lparr>get_overlays :=
           (\<lambda>i. Inr [\<lparr>itemId = i, overlayItemId = ''ov1''\<rparr>])\<rparr>)))) = Some ''item1''
   \<and> u_overlay_item_id (snd (girder_id_setter (Some ''item1'')
        (resolved_state (stub_client\<lparr>get_overlays :=
           (\<lambda>i. Inr [\<lparr>itemId = i, overlayItemId = ''ov1''\<rparr>])\<rparr>)))) = Some ''ov1''"
proof -
  let ?c2 = "stub_client\<lparr>get_overlays :=
           (\<lambda>i. Inr [\<lparr>itemId = i, overlayItemId = ''ov1''\<rparr>, \<lparr>itemId = i, overlayItemId = ''ov2''\<rparr>])\<rparr>"
  let ?c1 = "stub_client\<lparr>get_overlays := (\<lambda>i. Inr [\<lparr>itemId = i, overlayItemId = ''ov1''\<rparr>])\<rparr>"
  have n: "\<not> u_is_overlay_id (resolved_state c)" for c
    by (simp add: resolved_state_def LabelAnnotator_def)
  have 0: "get_overlays (self_client (resolved_state stub_client)) ''item1'' = Inr []"
    by (simp add: resolved_state_def LabelAnnotator_def stub_client_def)
  have 2: "get_overlays (self_client (resolved_state ?c2)) ''item1''
           = Inr [\<lparr>itemId = ''item1'', overlayItemId = ''ov1''\<rparr>,
                  \<lparr>itemId = ''item1'', overlayItemId = ''ov2''\<rparr>]"
    by (simp add: resolved_state_def LabelAnnotator_def stub_client_def)
  have 1: "get_overlays (self_client (resolved_state ?c1)) ''item1''
           = Inr [\<lparr>itemId = ''item1'', overlayItemId = ''ov1''\<rparr>]"
    by (simp add: resolved_state_def LabelAnnotator_def stub_client_def)
  show ?thesis
    using girder_id_setter_base_item [OF n 0] girder_id_setter_base_item [OF n 2]
      girder_id_setter_base_item [OF n 1]
    by simp
qed

section \<open>Locating the overlay file\<close>

text \<open>
  C10. With an overlay item whose file listing is not empty: if no listed file has a
  media type starting with "image", or if more than one has, the item names a large
  image file and every image file has that file's id, then the candidate list is empty
  when \<^verbatim>\<open>overlay_files[0]\<close> is read, and \<^verbatim>\<open>_update_overlay_file\<close> raises IndexError, not
  one of its ValueErrors.
\<close>

theorem update_overlay_file_IndexError:
  assumes "u_overlay_item_id s = Some oid"
    and "get_item_files (self_client s) oid 2 = Inr files"
    and "files \<noteq> []"
  shows "(filter (\<lambda>f. startswith (mimeType f) ''image'') files = [] \<longrightarrow>
            fst (update_overlay_file s) = Some IndexError)
       \<and> (\<forall>overlay_item fid.
            length (filter (\<lambda>f. startswith (mimeType f) ''image'') files) > 1
            \<and> getItem (self_client s) oid = Inr overlay_item
            \<and> largeImage overlay_item = Some (Some fid)
            \<and> list_all (\<lambda>f. f_id f = fid) (filter (\<lambda>f. startswith (mimeType f) ''image'') files)
            \<longrightarrow> fst (update_overlay_file s) = Some IndexError)"
proof (intro conjI allI impI)
  assume "filter (\<lambda>f. startswith (mimeType f) ''image'') files = []"
  then show "fst (update_overlay_file s) = Some IndexError"
    using assms by (simp add: update_overlay_file_def exclude_large_image_def Let_def)
next
  fix overlay_item fid
  let ?images = "filter (\<lambda>f. startswith (mimeType f) ''image'') files"
  assume h: "length ?images > 1
            \<and> getItem (self_client s) oid = Inr overlay_item
            \<and> largeImage overlay_item = Some (Some fid)
            \<and> list_all (\<lambda>f. f_id f = fid) ?images"
  then have "filter (\<lambda>f. Some (f_id f) \<noteq> Some fid) ?images = []"
    by (auto simp: list_all_iff filter_empty_conv)
  then show "fst (update_overlay_file s) = Some IndexError"
    using assms h
    by (simp add: update_overlay_file_def exclude_large_image_def Let_def request_made_def)
qed

theorem update_overlay_file_IndexError_witness:
  "fst (update_overlay_file
          (located_state (stub_client\<lparr>get_item_files :=
             (\<lambda>i n. Inr [file_of ''f1'' ''text/plain''])\<rparr>))) = Some IndexError
   \<and> fst (update_overlay_file
          (located_state (stub_client\<lparr>
             get_item_files :=
               (\<lambda>i n. Inr [file_of ''f1'' ''image/tiff'', file_of ''f1'' ''image/png'']),
             getItem := (\<lambda>i. Inr \<lparr>largeImage = Some (Some ''f1'')\<rparr>)\<rparr>))) = Some IndexError"
proof
  let ?c = "stub_client\<lparr>get_item_files := (\<lambda>i n. Inr [file_of ''f1'' ''text/plain''])\<rparr>"
  have a: "u_overlay_item_id (located_state ?c) = Some ''ov1''"
    by (simp add: located_state_def)
  have b: "get_item_files (self_client (located_state ?c)) ''ov1'' 2
           = Inr [file_of ''f1'' ''text/plain'']"
    by (simp add: located_state_def LabelAnnotator_def)
  have c: "[file_of ''f1'' ''text/plain''] \<noteq> []" by simp
  have d: "filter (\<lambda>f. startswith (mimeType f) ''image'') [file_of ''f1'' ''text/plain''] = []"
    by (simp add: startswith_def file_of_def)
  from update_overlay_file_IndexError [OF a b c, THEN conjunct1, rule_format, OF d]
  show "fst (update_overlay_file (located_state ?c)) = Some IndexError" .
next
  let ?files = "[file_of ''f1'' ''image/tiff'', file_of ''f1'' ''image/png'']"
  let ?c = "stub_client\<lparr>
             get_item_files := (\<lambda>i n. Inr ?files),
             getItem := (\<lambda>i. Inr \<lparr>largeImage = Some (Some ''f1'')\<rparr>)\<rparr>"
  have a: "u_overlay_item_id (located_state ?c) = Some ''ov1''"
    by (simp add: located_state_def)
  have b: "get_item_files (self_client (located_state ?c)) ''ov1'' 2 = Inr ?files"
    by (simp add: located_state_def LabelAnnotator_def)
  have c: "?files \<noteq> []" by simp
  have d: "length (filter (\<lambda>f. startswith (mimeType f) ''image'') ?files) > 1
            \<and> getItem (self_client (located_state ?c)) ''ov1'' = Inr \<lparr>largeImage = Some (Some ''f1'')\<rparr>
            \<and> largeImage \<lparr>largeImage = Some (Some ''f1'')\<rparr> = Some (Some ''f1'')
            \<and> list_all (\<lambda>f. f_id f = ''f1'') (filter (\<lambda>f. startswith (mimeType f) ''image'') ?files)"
    by (simp add: startswith_def file_of_def located_state_def LabelAnnotator_def)
  from update_overlay_file_IndexError [OF a b c, THEN conjunct2, rule_format, OF d]
  show "fst (update_overlay_file (located_state ?c)) = Some IndexError" .
qed

section \<open>Fetching the annotations\<close>

lemma fetch_each_all:
  "list_all (\<lambda>a. \<not> isl (get_annotation c (a_id a))) sums \<Longrightarrow>
   u_annotations s = Some acc \<Longrightarrow>
   fst (fetch_each c sums s) = None
   \<and> u_annotations (snd (fetch_each c sums s))
       = Some (acc @ map (\<lambda>a. projr (get_annotation c (a_id a))) sums)"
proof (induction sums arbitrary: s acc)
  case Nil
  then show ?case by simp
next
  case (Cons a sums)
  from Cons.prems(1) obtain full where f: "get_annotation c (a_id a) = Inr full"
    by (cases "get_annotation c (a_id a)") auto
  let ?s1 = "request_made (Get (''annotation/'' @ a_id a) []) s"
  let ?s2 = "?s1\<lparr>u_annotations := Some (the (u_annotations ?s1) @ [full])\<rparr>"
  have "u_annotations ?s2 = Some (acc @ [full])"
    using Cons.prems(2) by (simp add: request_made_def)
  from Cons.IH[OF _ this] Cons.prems(1) f show ?case
    by (simp add: Let_def)
qed

text \<open>
  C3. With a base item id set and the module's \<^verbatim>\<open>client\<close> bound, when the request for
  the item's full annotation list raises an exception: if it is an HttpError of status
  400 and the listing of summaries and each request by id return, the function returns
  with \<^verbatim>\<open>_annotations\<close> a list as long as the listing whose k-th element is what the
  request for the k-th summary's id returned; if it is any other exception, that
  exception is raised and \<^verbatim>\<open>_annotations\<close> is what it was.
\<close>

theorem update_annotations_fallback:
  assumes "u_item_id s = Some i"
    and "g_client s = Some c"
    and "get_annotation_item c i = Inl e"
  shows "(\<forall>sums. e = HttpError 400 \<and> get_annotations c i 0 = Inr sums
            \<and> list_all (\<lambda>a. \<not> isl (get_annotation c (a_id a))) sums \<longrightarrow>
            fst (update_annotations s) = None
            \<and> (\<exists>full. u_annotations (snd (update_annotations s)) = Some full
                  \<and> length full = length sums
                  \<and> (\<forall>k < length sums. get_annotation c (a_id (sums ! k)) = Inr (full ! k))))
       \<and> (e \<noteq> HttpError 400 \<longrightarrow>
            fst (update_annotations s) = Some e
            \<and> u_annotations (snd (update_annotations s)) = u_annotations s)"
proof (intro conjI allI impI)
  fix sums
  assume h: "e = HttpError 400 \<and> get_annotations c i 0 = Inr sums
            \<and> list_all (\<lambda>a. \<not> isl (get_annotation c (a_id a))) sums"
  let ?s2 = "request_made (Get ''annotation'' [(''itemId'', PStr i), (''limit'', PInt 0)])
               (request_made (Get (''annotation/item/'' @ i) []) s)"
  have u: "update_annotations s = fetch_each c sums (?s2\<lparr>u_annotations := Some []\<rparr>)"
    using assms h by (simp add: update_annotations_def Let_def)
  have e: "u_annotations (?s2\<lparr>u_annotations := Some []\<rparr>) = Some []" by simp
  from fetch_each_all[OF _ e, of c sums] h
  have r: "fst (update_annotations s) = None"
    "u_annotations (snd (update_annotations s))
       = Some (map (\<lambda>a. projr (get_annotation c (a_id a))) sums)"
    by (simp_all add: u)
  show "fst (update_annotations s) = None" by (rule r(1))
  have "get_annotation c (a_id (sums ! k))
        = Inr (map (\<lambda>a. projr (get_annotation c (a_id a))) sums ! k)" if "k < length sums" for k
  proof -
    have "\<not> isl (get_annotation c (a_id (sums ! k)))"
      using h that by (simp add: list_all_length)
    then show ?thesis using that by (cases "get_annotation c (a_id (sums ! k))") auto
  qed
  then show "\<exists>full. u_annotations (snd (update_annotations s)) = Some full
                  \<and> length full = length sums
                  \<and> (\<forall>k < length sums. get_annotation c (a_id (sums ! k)) = Inr (full ! k))"
    using r(2) by auto
next
  assume "e \<noteq> HttpError 400"
  then show "fst (update_annotations s) = Some e"
    "u_annotations (snd (update_annotations s)) = u_annotations s"
    using assms
    by (auto simp: update_annotations_def Let_def request_made_def split: error.splits)
qed

theorem update_annotations_fallback_witness:
  "fst (update_annotations (fetching_state (fallback_client 400))) = None
   \<and> u_annotations (snd (update_annotations (fetching_state (fallback_client 400))))
       = Some [record_named ''a1'' (Some ''A''), record_named ''a2'' (Some ''A'')]
   \<and> fst (update_annotations (fetching_state (fallback_client 500))) = Some (HttpError 500)
   \<and> u_annotations (snd (update_annotations (fetching_state (fallback_client 500)))) = None"
proof -
  let ?sums = "[record_named ''a1'' None, record_named ''a2'' None]"
  have i: "u_item_id (fetching_state c) = Some ''item1''" for c
    by (simp add: fetching_state_def)
  have g: "g_client (fetching_state c) = Some c" for c
    by (simp add: fetching_state_def LabelAnnotator_def)
  have p: "get_annotation_item (fallback_client n) ''item1'' = Inl (HttpError n)" for n
    by (simp add: fallback_client_def)
  have h: "HttpError 400 = HttpError 400 \<and> get_annotations (fallback_client 400) ''item1'' 0 = Inr ?sums
           \<and> list_all (\<lambda>a. \<not> isl (get_annotation (fallback_client 400) (a_id a))) ?sums"
    by (simp add: fallback_client_def)
  from update_annotations_fallback [OF i g p, THEN conjunct1, rule_format, OF h]
  obtain full where ok: "fst (update_annotations (fetching_state (fallback_client 400))) = None"
    and u: "u_annotations (snd (update_annotations (fetching_state (fallback_client 400)))) = Some full"
    and l: "length full = length ?sums"
    and k: "\<forall>k < length ?sums. get_annotation (fallback_client 400) (a_id (?sums ! k)) = Inr (full ! k)"
    by blast
  from k[rule_format, of 0] k[rule_format, of 1]
  have "full ! 0 = record_named ''a1'' (Some ''A'')" "full ! 1 = record_named ''a2'' (Some ''A'')"
    by (simp_all add: fallback_client_def record_named_def)
  then have "full = [record_named ''a1'' (Some ''A''), record_named ''a2'' (Some ''A'')]"
    using l by (auto simp: list_eq_iff_nth_eq less_Suc_eq)
  moreover have "HttpError 500 \<noteq> HttpError 400" by simp
  from update_annotations_fallback [OF i g p, THEN conjunct2, rule_format, OF this]
  have "fst (update_annotations (fetching_state (fallback_client 500))) = Some (HttpError 500)"
    "u_annotations (snd (update_annotations (fetching_state (fallback_client 500)))) = None"
    by (simp_all add: fetching_state_def LabelAnnotator_def)
  ultimately show ?thesis using ok u by simp
qed

section \<open>Acquiring the image\<close>

lemma image_file_downloaded:
  assumes "u_overlay_file s = Some f"
    and "downloadFile (self_client s) (f_id f)
           (TmpPath (temps_created s) (snd (splitext L (f_name f)))) = None"
  shows "fst (image_file L s) = Inr (Some (TmpPath (temps_created s) (snd (splitext L (f_name f)))))"
    and "open_temps (snd (image_file L s))
         = open_temps s @ [TmpPath (temps_created s) (snd (splitext L (f_name f)))]"
  using assms by (simp_all add: image_file_def Let_def request_made_def)

text \<open>
  C2 (as amended). With an overlay file located and downloaded to its temporary path,
  when \<^verbatim>\<open>Image.open\<close> raises an IOError or OSError and the fallback decoding raises too,
  \<^verbatim>\<open>image\<close> raises the exception of the fallback, whatever its class.
\<close>

theorem image_both_decoders_fail:
  assumes "u_overlay_file s = Some f"
    and "p = TmpPath (temps_created s) (snd (splitext L (f_name f)))"
    and "downloadFile (self_client s) (f_id f) p = None"
    and "Image_open L p = Inl pillow_exception"
    and "is_IOError_or_OSError pillow_exception"
    and "pytiff_open L p = Inl pytiff_exception"
  shows "fst (image L s) = Inl pytiff_exception"
proof -
  obtain s1 where "image_file L s = (Inr (Some p), s1)"
    using image_file_downloaded(1)[of s f L] assms(1-3)
    by (cases "image_file L s") auto
  then show ?thesis
    using assms(4-6) by (simp add: image_def)
qed

theorem image_both_decoders_fail_witness:
  "fst (image (failing_libs (IOError ''cannot identify image file'') (OSError ''not a TIFF file''))
          acquiring_state)
   = Inl (OSError ''not a TIFF file'')"
proof -
  let ?L = "failing_libs (IOError ''cannot identify image file'') (OSError ''not a TIFF file'')"
  let ?p = "TmpPath 0 ''.tif''"
  let ?f = "\<lparr>f_id = ''f1'', f_name = ''overlay.tif'', mimeType = ''image/tiff''\<rparr>"
  have 1: "u_overlay_file acquiring_state = Some ?f"
    by (simp add: acquiring_state_def)
  have 2: "?p = TmpPath (temps_created acquiring_state) (snd (splitext ?L (f_name ?f)))"
    by (simp add: acquiring_state_def LabelAnnotator_def failing_libs_def)
  have 3: "downloadFile (self_client acquiring_state) (f_id ?f) ?p = None"
    by (simp add: acquiring_state_def LabelAnnotator_def stub_client_def)
  have 4: "Image_open ?L ?p = Inl (IOError ''cannot identify image file'')"
    by (simp add: failing_libs_def)
  have 5: "is_IOError_or_OSError (IOError ''cannot identify image file'')" by simp
  have 6: "pytiff_open ?L ?p = Inl (OSError ''not a TIFF file'')"
    by (simp add: failing_libs_def)
  show ?thesis by (rule image_both_decoders_fail [OF 1 2 3 4 5 6])
qed

text \<open>
  C2 as stated fails when both decoders fail, the first with an IOError: the exception
  \<^verbatim>\<open>image\<close> raises is the fallback's, not the one \<^verbatim>\<open>Image.open\<close> raised.
\<close>

theorem image_raises_fallback_error:
  "fst (image (failing_libs (IOError ''cannot identify image file'') (OSError ''not a TIFF file''))
          acquiring_state)
   = Inl (OSError ''not a TIFF file'')
   \<and> fst (image (failing_libs (IOError ''cannot identify image file'') (OSError ''not a TIFF file''))
          acquiring_state)
   \<noteq> Inl (IOError ''cannot identify image file'')"
  by (simp add: image_def image_file_def Let_def request_made_def acquiring_state_def
        LabelAnnotator_def stub_client_def failing_libs_def stub_libs_def file_of_def)

text \<open>
  C6 (the code at the failing input). Both decoders fail: \<^verbatim>\<open>image\<close> raises and the
  temporary file it created is still open, as \<^verbatim>\<open>image_file.close()\<close> is only reached
  when a decoder returned. With a decoder that returns, no temporary file is left.
\<close>

theorem image_leaves_temporary_file:
  "open_temps (snd (image (failing_libs (IOError ''cannot identify image file'')
                             (OSError ''not a TIFF file'')) acquiring_state))
   = [TmpPath 0 ''.tif'']
   \<and> open_temps (snd (image (stub_libs\<lparr>splitext := (\<lambda>n. (''overlay'', ''.tif''))\<rparr>)
                         acquiring_state)) = []"
  by (simp add: image_def image_file_def Let_def request_made_def close_temp_def
        acquiring_state_def LabelAnnotator_def stub_client_def failing_libs_def stub_libs_def
        file_of_def)

section \<open>Drawing a rectangle\<close>









section \<open>The identifier read back\<close>

lemma girder_id_setter_frame:
  "u_girder_id (snd (girder_id_setter gid s)) = u_girder_id s
   \<and> u_gider_id (snd (girder_id_setter gid s)) = Some gid"
  by (auto simp: girder_id_setter_def Let_def request_made_def update_derived_frame
        split: option.splits sum.splits)

lemma image_file_frame: "u_girder_id (snd (image_file L s)) = u_girder_id s"
  by (auto simp: image_file_def Let_def request_made_def split: option.splits)

lemma image_frame: "u_girder_id (snd (image L s)) = u_girder_id s"
proof (cases "image_file L s")
  case (Pair r s1)
  then have "u_girder_id s1 = u_girder_id s"
    using image_file_frame[of L s] by simp
  then show ?thesis
    using Pair
    by (auto simp: image_def close_temp_def split: sum.splits option.splits)
qed

lemma draw_annotations_frame: "u_girder_id (snd (draw_annotations L s)) = u_girder_id s"
proof (cases "image L s")
  case (Pair r s1)
  then have "u_girder_id s1 = u_girder_id s"
    using image_frame[of L s] by simp
  then show ?thesis
    using Pair
    by (auto simp: draw_annotations_def split: sum.splits option.splits prod.splits)
qed

lemma save_frame: "u_girder_id (snd (save L f s)) = u_girder_id s"
proof (cases "draw_annotations L s")
  case (Pair r s1)
  then have "u_girder_id s1 = u_girder_id s"
    using draw_annotations_frame[of L s] by simp
  then show ?thesis
    using Pair by (auto simp: save_def split: sum.splits option.splits)
qed

lemma colormap_setter_frame: "u_girder_id (snd (colormap_setter L f s)) = u_girder_id s"
  by (auto simp: colormap_setter_def split: sum.splits)

lemma perform_frame: "u_girder_id (perform L op s) = u_girder_id s"
  by (cases op)
     (simp_all add: colormap_setter_frame is_overlay_id_setter_def girder_id_setter_frame
        image_file_frame image_frame save_frame)

lemma perform_all_frame: "u_girder_id (perform_all L ops s) = u_girder_id s"
  by (induction ops arbitrary: s) (simp_all add: perform_frame)

text \<open>
  C9. After any sequence of operations on a new object, reading \<^verbatim>\<open>girder_id\<close> gives
  \<^verbatim>\<open>None\<close>: the setter, from any state and whether it returns or raises, leaves
  \<^verbatim>\<open>_girder_id\<close>, the attribute the getter reads, as it was, and stores the identifier
  it was given under \<^verbatim>\<open>_gider_id\<close>.
\<close>

theorem girder_id_never_observable:
  "girder_id (perform_all L ops (LabelAnnotator c g)) = None
   \<and> girder_id (snd (girder_id_setter gid s)) = girder_id s
   \<and> u_gider_id (snd (girder_id_setter gid s)) = Some gid"
  by (simp add: girder_id_def perform_all_frame girder_id_setter_frame LabelAnnotator_def)

theorem girder_id_never_observable_witness:
  "fst (girder_id_setter (Some ''item1'') (resolved_state working_client)) = None
   \<and> u_item_id (snd (girder_id_setter (Some ''item1'') (resolved_state working_client)))
       = Some ''item1''
   \<and> girder_id (snd (girder_id_setter (Some ''item1'') (resolved_state working_client))) = None
   \<and> girder_id (perform_all stub_libs
        [SetColormap (Some ''colors.json''), SetIsOverlayId False, SetGirderId (Some ''item1''),
         Save ''out.png'']
        (LabelAnnotator working_client (Some working_client))) = None"
proof -
  have "fst (girder_id_setter (Some ''item1'') (resolved_state working_client)) = None"
    "u_item_id (snd (girder_id_setter (Some ''item1'') (resolved_state working_client)))
       = Some ''item1''"
    by (simp_all add: girder_id_setter_def update_derived_def update_overlay_file_def
          exclude_large_image_def update_annotations_def Let_def request_made_def
          resolved_state_def LabelAnnotator_def working_client_def stub_client_def
          file_of_def startswith_def)
  moreover have "girder_id (resolved_state working_client) = None"
    by (simp add: girder_id_def resolved_state_def LabelAnnotator_def)
  ultimately show ?thesis
    using girder_id_never_observable
      [of stub_libs "[SetColormap (Some ''colors.json''), SetIsOverlayId False,
         SetGirderId (Some ''item1''), Save ''out.png'']" working_client "Some working_client"
         "Some ''item1''" "resolved_state working_client"]
    by simp
qed

end
